theory Spec2Isabelle
  imports Main "HOL-Library.Char_ord" "HOL-Library.List_Lexorder"
begin

section \<open>Strings\<close>

text \<open>
  A Python \<open>str\<close> is modelled as a \<open>string\<close>, one \<open>char\<close> per code point; the model
  covers the code points below 256. Offsets, lengths and list indices are natural numbers
  (the source only produces non-negative ones); the bracket counter, which the source
  decrements below zero, is an \<open>int\<close>.
\<close>

abbreviation backslash :: char where
  "backslash \<equiv> CHR 0x5C"

abbreviation newline :: char where
  "newline \<equiv> CHR 0x0A"

text \<open>\<open>str.isspace\<close> on one character, which is also what \<open>\s\<close> matches in a
  \<open>str\<close> pattern: TAB, LF, VT, FF, CR, FS, GS, RS, US, space, NEL and NBSP.\<close>

definition isspace :: "char \<Rightarrow> bool" where
  "isspace c = (c = CHR 0x09 \<or> c = CHR 0x0A \<or> c = CHR 0x0B \<or> c = CHR 0x0C \<or> c = CHR 0x0D
     \<or> c = CHR 0x1C \<or> c = CHR 0x1D \<or> c = CHR 0x1E \<or> c = CHR 0x1F \<or> c = CHR 0x20
     \<or> c = CHR 0x85 \<or> c = CHR 0xA0)"

text \<open>\<open>s.lstrip()\<close>, \<open>s.rstrip()\<close> and \<open>s.strip()\<close>\<close>

definition lstrip :: "string \<Rightarrow> string" where
  "lstrip s = dropWhile isspace s"

definition rstrip :: "string \<Rightarrow> string" where
  "rstrip s = rev (dropWhile isspace (rev s))"

definition strip :: "string \<Rightarrow> string" where
  "strip s = rstrip (lstrip s)"

text \<open>\<open>s.startswith(p)\<close> and \<open>s.endswith(p)\<close>\<close>

definition startswith :: "string \<Rightarrow> string \<Rightarrow> bool" where
  "startswith s p = (take (length p) s = p)"

definition endswith :: "string \<Rightarrow> string \<Rightarrow> bool" where
  "endswith s p = (length p \<le> length s \<and> drop (length s - length p) s = p)"

text \<open>\<open>s.find(sub)\<close>, with \<open>None\<close> for \<open>-1\<close>; \<open>sub in s\<close>\<close>

fun find_sub :: "string \<Rightarrow> string \<Rightarrow> nat option" where
  "find_sub sub [] = (if sub = [] then Some 0 else None)"
| "find_sub sub (c # cs) =
     (if startswith (c # cs) sub then Some 0 else map_option Suc (find_sub sub cs))"

definition contains :: "string \<Rightarrow> string \<Rightarrow> bool" where
  "contains sub s = (find_sub sub s \<noteq> None)"

text \<open>\<open>s.split(sep, 1)\<close>: at most one split, at the first occurrence of \<open>sep\<close>\<close>

definition split_once :: "string \<Rightarrow> string \<Rightarrow> string list" where
  "split_once sep s =
     (case find_sub sep s of
        None \<Rightarrow> [s]
      | Some i \<Rightarrow> [take i s, drop (i + length sep) s])"

text \<open>\<open>s.split(c)\<close> for a one-character separator: never the empty list\<close>

fun split_char :: "char \<Rightarrow> string \<Rightarrow> string list" where
  "split_char sep [] = [[]]"
| "split_char sep (c # cs) =
     (if c = sep then [] # split_char sep cs
      else (case split_char sep cs of
              p # ps \<Rightarrow> (c # p) # ps
            | [] \<Rightarrow> [[c]]))"

text \<open>\<open>'\n'.join(parts)\<close>\<close>

fun join_lines :: "string list \<Rightarrow> string" where
  "join_lines [] = []"
| "join_lines [l] = l"
| "join_lines (l # ls) = l @ newline # join_lines ls"

section \<open>The regular expressions of the source\<close>

text \<open>
  The patterns the source hands to \<open>re.finditer\<close>, \<open>re.search\<close>, \<open>re.sub\<close>,
  \<open>re.findall\<close> and \<open>re.split\<close>:
  \<^item> \<open>Lit l\<close>: a pattern that is an escaped literal, such as \<^verbatim>\<open>\\---\<close> (the text
    \<^verbatim>\<open>\---\<close>) or \<open>re.escape\<close> of a string;
  \<^item> \<open>Var p\<close>: the literal \<open>p\<close> followed by \<^verbatim>\<open>\{\{([^}]+)\}\}\<close>; group 1 is the name;
  \<^item> \<open>BraceVar\<close>: \<^verbatim>\<open>(?<!%)\{\{([^}]+)\}\}\<close>;
  \<^item> \<open>Sep\<close>: \<^verbatim>\<open>\n\s*---\s*\n\<close>.
  None of them matches the empty string.
\<close>

datatype regex = Lit string | Var string | BraceVar | Sep

record rmatch =
  m_start :: nat
  m_end :: nat
  group0 :: string
  group1 :: "string option"

text \<open>
  \<^verbatim>\<open>\{\{([^}]+)\}\}\<close> at the head of \<open>s\<close>: the length matched and group 1. The class
  \<^verbatim>\<open>[^}]\<close> takes every character up to the next \<open>}\<close> (newlines too); giving some back
  never helps, since the next character then is not a \<open>}\<close>.
\<close>

definition var_body :: "string \<Rightarrow> (nat \<times> string) option" where
  "var_body s =
     (if startswith s ''{{'' then
        (let g = takeWhile (\<lambda>c. c \<noteq> CHR ''}'') (drop 2 s) in
         if g \<noteq> [] \<and> startswith (drop (2 + length g) s) ''}}''
         then Some (length g + 4, g) else None)
      else None)"

text \<open>The index of the last occurrence of a character.\<close>

fun rfind_char :: "char \<Rightarrow> string \<Rightarrow> nat option" where
  "rfind_char c [] = None"
| "rfind_char c (x # xs) =
     (case rfind_char c xs of
        Some k \<Rightarrow> Some (Suc k)
      | None \<Rightarrow> if x = c then Some 0 else None)"

text \<open>
  \<^verbatim>\<open>\n\s*---\s*\n\<close> at the head of \<open>s\<close>. The first \<^verbatim>\<open>\s*\<close> takes the whole run of
  white space (a shorter run is followed by white space, not by \<open>-\<close>); the second one
  takes the whole run and gives back until the character it gave back last is a newline,
  so the match ends after the last newline of that run.
\<close>

definition sep_body :: "string \<Rightarrow> nat option" where
  "sep_body s =
     (case s of
        [] \<Rightarrow> None
      | c # r \<Rightarrow>
          if c = newline then
            (let w1 = takeWhile isspace r; r1 = dropWhile isspace r in
             if startswith r1 ''---'' then
               (case rfind_char newline (takeWhile isspace (drop 3 r1)) of
                  None \<Rightarrow> None
                | Some k \<Rightarrow> Some (1 + length w1 + 3 + k + 1))
             else None)
          else None)"

text \<open>A match attempt at offset \<open>pos\<close> of \<open>text\<close>: the length matched and group 1.\<close>

fun match_at :: "regex \<Rightarrow> string \<Rightarrow> nat \<Rightarrow> (nat \<times> string option) option" where
  "match_at (Lit l) text pos =
     (if l \<noteq> [] \<and> startswith (drop pos text) l then Some (length l, None) else None)"
| "match_at (Var p) text pos =
     (if startswith (drop pos text) p then
        (case var_body (drop (pos + length p) text) of
           Some (n, g) \<Rightarrow> Some (length p + n, Some g)
         | None \<Rightarrow> None)
      else None)"
| "match_at BraceVar text pos =
     (if 0 < pos \<and> text ! (pos - 1) = CHR ''%'' then None
      else (case var_body (drop pos text) of
              Some (n, g) \<Rightarrow> Some (n, Some g)
            | None \<Rightarrow> None))"
| "match_at Sep text pos =
     (case sep_body (drop pos text) of
        Some n \<Rightarrow> Some (n, None)
      | None \<Rightarrow> None)"

lemma match_at_pos: "match_at r text pos = Some (n, g) \<Longrightarrow> 0 < n"
  by (cases r)
     (auto simp: var_body_def sep_body_def Let_def split: if_splits option.splits list.splits)

text \<open>
  \<open>re.finditer\<close>: the matches from left to right, each attempt at the first offset after
  the previous match; an offset with no match is skipped.
\<close>

function finditer_from :: "regex \<Rightarrow> string \<Rightarrow> nat \<Rightarrow> rmatch list" where
  "finditer_from r text pos =
     (if length text \<le> pos then []
      else (case match_at r text pos of
              None \<Rightarrow> finditer_from r text (Suc pos)
            | Some (n, g) \<Rightarrow>
                \<lparr>m_start = pos, m_end = pos + n, group0 = take n (drop pos text), group1 = g\<rparr>
                # finditer_from r text (pos + n)))"
  by pat_completeness auto
termination
  by (relation "measure (\<lambda>(r, text, pos). length text - pos)")
     (auto dest: match_at_pos)

declare finditer_from.simps [simp del]

definition finditer :: "regex \<Rightarrow> string \<Rightarrow> rmatch list" where
  "finditer r text = finditer_from r text 0"

text \<open>\<open>re.search\<close>: the first match, if any\<close>

definition re_search :: "regex \<Rightarrow> string \<Rightarrow> rmatch option" where
  "re_search r text = (case finditer r text of [] \<Rightarrow> None | m # _ \<Rightarrow> Some m)"

text \<open>\<open>re.findall\<close> for a pattern with one group: the group of every match\<close>

definition re_findall :: "regex \<Rightarrow> string \<Rightarrow> string list" where
  "re_findall r text = List.map_filter group1 (finditer r text)"

text \<open>
  A replacement template: a plain string, or a string around \<^verbatim>\<open>\1\<close>. The source pairs
  \<open>Group1\<close> only with patterns that have a group.
\<close>

datatype template = Plain string | Group1 string string

fun expand :: "template \<Rightarrow> rmatch \<Rightarrow> string" where
  "expand (Plain s) m = s"
| "expand (Group1 a b) m = a @ (case group1 m of Some g \<Rightarrow> g | None \<Rightarrow> []) @ b"

text \<open>\<open>re.sub\<close>: the text between the matches, each match replaced by the template\<close>

fun sub_from :: "template \<Rightarrow> string \<Rightarrow> nat \<Rightarrow> rmatch list \<Rightarrow> string" where
  "sub_from t text pos [] = drop pos text"
| "sub_from t text pos (m # ms) =
     take (m_start m - pos) (drop pos text) @ expand t m @ sub_from t text (m_end m) ms"

definition re_sub :: "regex \<Rightarrow> template \<Rightarrow> string \<Rightarrow> string" where
  "re_sub r t text = sub_from t text 0 (finditer r text)"

text \<open>\<open>re.split\<close> for a pattern without groups: the pieces between the matches\<close>

fun split_from :: "string \<Rightarrow> nat \<Rightarrow> rmatch list \<Rightarrow> string list" where
  "split_from text pos [] = [drop pos text]"
| "split_from text pos (m # ms) =
     take (m_start m - pos) (drop pos text) # split_from text (m_end m) ms"

definition re_split :: "regex \<Rightarrow> string \<Rightarrow> string list" where
  "re_split r text = split_from text 0 (finditer r text)"

section \<open>MarkdownFlowEscapeProcessor\<close>

datatype EscapeType = NONE | FULL | PARTIAL

record EscapeInfo =
  escape_type :: EscapeType
  original_text :: string
  processed_text :: string
  variable_positions :: "(nat \<times> nat) list"

text \<open>The three tables, in the order the dictionaries list their keys.\<close>

definition DOCUMENT_ESCAPES :: "(regex \<times> template \<times> EscapeType) list" where
  "DOCUMENT_ESCAPES =
     [(Lit (backslash # ''---''), Plain ''---'', FULL),
      (Lit (backslash # ''===''), Plain ''==='', FULL),
      (Lit (backslash # ''?[''), Plain ''?['', FULL)]"

definition INLINE_ESCAPES :: "(regex \<times> template \<times> EscapeType) list" where
  "INLINE_ESCAPES =
     [(Lit (backslash # ''...''), Plain ''...'', FULL),
      (Lit (backslash # ''|''), Plain ''|'', FULL),
      (Lit (backslash # ''//''), Plain ''//'', FULL),
      (Var [backslash], Group1 ''{{'' ''}}'', FULL)]"

definition PARTIAL_ESCAPES :: "(regex \<times> template) list" where
  "PARTIAL_ESCAPES = [(Var (backslash # ''%''), Group1 ''%{{'' ''}}'')]"

text \<open>
  The body of \<open>for match in reversed(matches)\<close>: the state is \<open>processed_text\<close> and
  \<open>variable_positions\<close>. \<open>match.group(0)\<close> and \<open>match.start()\<close> belong to the text the
  matches were found in.
\<close>

fun partial_match_step ::
  "regex \<Rightarrow> template \<Rightarrow> rmatch \<Rightarrow> string \<times> (nat \<times> nat) list \<Rightarrow> string \<times> (nat \<times> nat) list"
where
  "partial_match_step pattern replacement m (txt, positions) =
     (let var_name = group1 m;
          replacement_text = re_sub pattern replacement (group0 m);
          positions' =
            (case var_name of
               None \<Rightarrow> positions
             | Some v \<Rightarrow>
                 if v = [] then positions
                 else (case re_search (Lit (''{{'' @ v @ ''}}'')) replacement_text of
                         None \<Rightarrow> positions
                       | Some var_match \<Rightarrow>
                           positions @
                             [(m_start m + m_start var_match, m_start m + m_end var_match)]))
      in (take (m_start m) txt @ replacement_text @ drop (m_end m) txt,
          positions'))"

text \<open>\<open>for pattern, replacement in partial_escapes.items()\<close>\<close>

fun partial_loop ::
  "(regex \<times> template) list \<Rightarrow> EscapeType \<times> string \<times> (nat \<times> nat) list
     \<Rightarrow> EscapeType \<times> string \<times> (nat \<times> nat) list"
where
  "partial_loop [] st = st"
| "partial_loop ((pattern, replacement) # rest) (etype, txt, positions) =
     (let matches = finditer pattern txt in
      if matches = [] then partial_loop rest (etype, txt, positions)
      else (case fold (partial_match_step pattern replacement) (rev matches)
                   (txt, positions) of
              (txt', positions') \<Rightarrow>
                partial_loop rest (PARTIAL, txt', positions')))"

text \<open>\<open>for pattern, (replacement, esc_type) in full_escapes.items()\<close>\<close>

fun full_loop ::
  "(regex \<times> template \<times> EscapeType) list \<Rightarrow> EscapeType \<times> string \<Rightarrow> EscapeType \<times> string"
where
  "full_loop [] st = st"
| "full_loop ((pattern, replacement, esc_type) # rest) (etype, txt) =
     (if re_search pattern txt \<noteq> None then
        full_loop rest
          (if etype = NONE then esc_type else etype,
           re_sub pattern replacement txt)
      else full_loop rest (etype, txt))"

definition process_escapes ::
  "string \<Rightarrow> (regex \<times> template \<times> EscapeType) list \<Rightarrow> (regex \<times> template) list \<Rightarrow> EscapeInfo"
where
  "process_escapes text full_escapes partial_escapes =
     (case partial_loop partial_escapes (NONE, text, []) of
        (etype, txt, positions) \<Rightarrow>
          (case full_loop full_escapes (etype, txt) of
             (etype', txt') \<Rightarrow>
               \<lparr>escape_type = etype', original_text = text,
                processed_text = txt', variable_positions = positions\<rparr>))"

definition process_document_escapes :: "string \<Rightarrow> EscapeInfo" where
  "process_document_escapes text = process_escapes text DOCUMENT_ESCAPES []"

definition process_inline_escapes :: "string \<Rightarrow> EscapeInfo" where
  "process_inline_escapes text = process_escapes text INLINE_ESCAPES PARTIAL_ESCAPES"

section \<open>MarkdownFlowBlockParser\<close>

text \<open>
  Modelled from the spec: the enumeration \<open>BlockType\<close> (\<open>enums.py\<close>) and the class
  \<open>Block\<close> (\<open>models.py\<close>), which the source imports; the spec gives a block a
  \<open>content\<close>, a \<open>block_type\<close> and an \<open>index\<close>. A \<open>Block\<close> object is taken to be true
  in a condition, as an object of a plain data class is.
\<close>

datatype BlockType = CONTENT | PRESERVED_CONTENT | INTERACTION

record Block =
  content :: string
  block_type :: BlockType
  index :: nat

text \<open>The loop \<open>for char in stripped\<close> of \<open>_is_interaction_block\<close>.\<close>

fun bracket_count :: "string \<Rightarrow> int \<Rightarrow> int" where
  "bracket_count [] n = n"
| "bracket_count (c # cs) n =
     bracket_count cs (if c = CHR ''['' then n + 1 else if c = CHR '']'' then n - 1 else n)"

definition is_interaction_block :: "string \<Rightarrow> bool" where
  "is_interaction_block s =
     (let stripped = strip s in
      if startswith stripped ''?['' \<and> endswith stripped '']''
      then bracket_count stripped 0 = 0
      else False)"

text \<open>
  \<^verbatim>\<open>re.match(r'^===(.+)===$', line)\<close>, returning group 1. \<^verbatim>\<open>.\<close> matches no newline and
  \<^verbatim>\<open>$\<close> matches at the end or before a newline that ends the string, so the only
  candidate body is what lies between the leading \<open>===\<close> and a trailing \<open>===\<close>.
\<close>

definition match_preserved_inline :: "string \<Rightarrow> string option" where
  "match_preserved_inline line =
     (if startswith line ''==='' then
        (let rest = drop 3 line;
             core = (if rest \<noteq> [] \<and> last rest = newline then butlast rest else rest);
             g = take (length core - 3) core
         in if endswith core ''==='' \<and> g \<noteq> [] \<and> newline \<notin> set g then Some g else None)
      else None)"

definition is_preserved_content_block :: "string \<Rightarrow> bool" where
  "is_preserved_content_block s =
     (let lines = split_char newline s in
      if length lines = 1 \<and>
         (case match_preserved_inline (strip (hd lines)) of
            Some g \<Rightarrow> CHR ''='' \<notin> set g
          | None \<Rightarrow> False)
      then True
      else if 3 \<le> length lines \<and> strip (hd lines) = ''==='' \<and> strip (last lines) = ''===''
      then True
      else False)"

definition parse_single_block :: "string \<Rightarrow> nat \<Rightarrow> Block option" where
  "parse_single_block s tentative_index =
     (let c = strip s in
      if c = [] then None
      else if is_interaction_block c then
        Some \<lparr>content = c, block_type = INTERACTION, index = tentative_index\<rparr>
      else if is_preserved_content_block c then
        Some \<lparr>content = c, block_type = PRESERVED_CONTENT, index = tentative_index\<rparr>
      else Some \<lparr>content = c, block_type = CONTENT, index = tentative_index\<rparr>)"

text \<open>The loop \<open>for i, raw_block in enumerate(raw_blocks)\<close>; \<open>blocks\<close> is its state.\<close>

fun collect_blocks :: "(nat \<times> string) list \<Rightarrow> Block list \<Rightarrow> Block list" where
  "collect_blocks [] blocks = blocks"
| "collect_blocks ((i, raw_block) # rest) blocks =
     (let raw = strip raw_block in
      if raw = [] then collect_blocks rest blocks
      else (case parse_single_block raw i of
              Some block \<Rightarrow> collect_blocks rest (blocks @ [block])
            | None \<Rightarrow> collect_blocks rest blocks))"

text \<open>The loop \<open>for i, block in enumerate(blocks): block.index = i\<close>.\<close>

definition update_indices :: "Block list \<Rightarrow> Block list" where
  "update_indices blocks = map (\<lambda>(i, block). block\<lparr>index := i\<rparr>) (enumerate 0 blocks)"

definition parse_document :: "string \<Rightarrow> Block list" where
  "parse_document document =
     (let escape_info = process_document_escapes document;
          processed_document = processed_text escape_info;
          raw_blocks = re_split Sep processed_document
      in update_indices (collect_blocks (enumerate 0 raw_blocks) []))"

section \<open>MarkdownFlowInlineParser\<close>

text \<open>
  The dictionaries the parser returns are records; a key that only some of the
  dictionaries have is an optional field. The dictionary of an interaction is the
  variant \<open>Descriptor\<close>: the keys \<open>variable\<close> and \<open>question\<close> exist for the constructors
  that carry them.
\<close>

record Button =
  display :: string
  val :: string

datatype Descriptor =
    Error string
  | ButtonsWithText string "Button list" string
  | TextOnly string string
  | ButtonsOnly string "Button list"
  | NonAssignmentButton "Button list"

record InlineResult =
  processed_content :: string
  extracted_content :: "string option"
  variables :: "string list"
  escape_info :: EscapeInfo

record InteractionResult =
  descriptor :: Descriptor
  interaction_escape_info :: EscapeInfo
  original_content :: string

text \<open>
  \<open>sorted(list(s))\<close> for a set \<open>s\<close> of strings, the set given by the list of the
  elements added to it.
\<close>

definition sorted_set :: "string list \<Rightarrow> string list" where
  "sorted_set xs = sort (remdups xs)"

definition extract_variables :: "string \<Rightarrow> EscapeInfo option \<Rightarrow> string list" where
  "extract_variables text info =
     (let percent_vars = re_findall (Var ''%'') text;
          brace_vars =
            (if (case info of None \<Rightarrow> True | Some e \<Rightarrow> escape_type e \<noteq> FULL)
             then List.map_filter group1 (finditer BraceVar text) else [])
      in sorted_set (map strip percent_vars @ map strip brace_vars))"

text \<open>The loop \<open>for button_text in content.split('|')\<close>; \<open>buttons\<close> is its state.\<close>

fun buttons_loop :: "string list \<Rightarrow> Button list \<Rightarrow> Button list" where
  "buttons_loop [] buttons = buttons"
| "buttons_loop (button_text # rest) buttons =
     (let t = strip button_text in
      if t \<noteq> [] then
        (if contains ''//'' t then
           (let parts = split_once ''//'' t in
            buttons_loop rest
              (buttons @ [\<lparr>display = strip (parts ! 0), val = strip (parts ! 1)\<rparr>]))
         else buttons_loop rest (buttons @ [\<lparr>display = t, val = t\<rparr>]))
      else buttons_loop rest buttons)"

definition parse_buttons :: "string \<Rightarrow> Button list" where
  "parse_buttons s = (if s = [] then [] else buttons_loop (split_char CHR ''|'' s) [])"

text \<open>
  \<^verbatim>\<open>re.match(r'^[^]]+\]\([^)]+\)$', s)\<close>: both classes take every character up to the
  next \<open>]\<close> and the next \<open>)\<close>, and the closing \<open>)\<close> ends the string (or stands before
  its final newline).
\<close>

definition match_markdown_link :: "string \<Rightarrow> bool" where
  "match_markdown_link s =
     (let a = takeWhile (\<lambda>c. c \<noteq> CHR '']'') s;
          r = dropWhile (\<lambda>c. c \<noteq> CHR '']'') s
      in if a \<noteq> [] \<and> startswith r ''](''
         then (let b = takeWhile (\<lambda>c. c \<noteq> CHR '')'') (drop 2 r);
                   r' = dropWhile (\<lambda>c. c \<noteq> CHR '')'') (drop 2 r)
               in b \<noteq> [] \<and> (r' = '')'' \<or> r' = [CHR '')'', newline]))
         else False)"

text \<open>
  \<^verbatim>\<open>re.match(r'^%\{\{([^}]+)\}\}(.*)$', s)\<close>, returning groups 1 and 2: \<^verbatim>\<open>(.*)\<close> stops at
  the first newline, where the string has to end (or to have that newline only left).
\<close>

definition match_var_assign :: "string \<Rightarrow> (string \<times> string) option" where
  "match_var_assign s =
     (if startswith s ''%'' then
        (case var_body (drop 1 s) of
           None \<Rightarrow> None
         | Some (n, g) \<Rightarrow>
             (let r = drop (1 + n) s;
                  d = takeWhile (\<lambda>c. c \<noteq> newline) r;
                  t = dropWhile (\<lambda>c. c \<noteq> newline) r
              in if t = [] \<or> t = [newline] then Some (g, d) else None))
      else None)"

definition parse_interaction_content :: "string \<Rightarrow> Descriptor" where
  "parse_interaction_content s =
     (if match_markdown_link (strip s)
      then Error ''Markdown link format not supported as interaction''
      else (case match_var_assign (strip s) of
              Some (g1, g2) \<Rightarrow>
                (let var_name = strip g1; remaining = strip g2 in
                 if contains ''...'' remaining then
                   (let parts = split_once ''...'' remaining;
                        buttons_part = strip (parts ! 0);
                        question = (if 1 < length parts then strip (parts ! 1) else [])
                    in if contains ''|'' buttons_part \<and> buttons_part \<noteq> []
                       then ButtonsWithText var_name (parse_buttons buttons_part) question
                       else TextOnly var_name question)
                 else if contains ''|'' remaining \<or> remaining \<noteq> []
                 then ButtonsOnly var_name
                        (if remaining \<noteq> [] then parse_buttons remaining else [])
                 else TextOnly var_name [])
            | None \<Rightarrow>
                NonAssignmentButton
                  (if s \<noteq> [] then parse_buttons s else [\<lparr>display = [], val = []\<rparr>])))"

definition parse_content_block :: "string \<Rightarrow> InlineResult" where
  "parse_content_block s =
     (let info = process_inline_escapes s in
      \<lparr>processed_content = processed_text info, extracted_content = None,
       variables = extract_variables (processed_text info) (Some info),
       escape_info = info\<rparr>)"

text \<open>\<open>content[2:-1]\<close> is \<open>butlast (drop 2 content)\<close>.\<close>

definition parse_interaction_block :: "string \<Rightarrow> InteractionResult" where
  "parse_interaction_block s =
     (let inner_content =
            (if startswith s ''?['' \<and> endswith s '']'' then strip (butlast (drop 2 s)) else s);
          info = process_inline_escapes inner_content
      in \<lparr>descriptor = parse_interaction_content (processed_text info),
          interaction_escape_info = info, original_content = s\<rparr>)"

definition extract_preserved_content :: "string \<Rightarrow> string" where
  "extract_preserved_content s =
     (let lines = split_char newline s in
      case (if length lines = 1 then match_preserved_inline (strip (hd lines)) else None) of
        Some g \<Rightarrow> strip g
      | None \<Rightarrow>
          if 3 \<le> length lines \<and> strip (hd lines) = ''==='' \<and> strip (last lines) = ''===''
          then join_lines (butlast (tl lines))
          else s)"

definition parse_preserved_content_block :: "string \<Rightarrow> InlineResult" where
  "parse_preserved_content_block s =
     (let extracted = extract_preserved_content s;
          info = process_inline_escapes extracted
      in \<lparr>processed_content = processed_text info, extracted_content = Some extracted,
          variables = extract_variables (processed_text info) (Some info),
          escape_info = info\<rparr>)"

section \<open>MarkdownFlowVariableResolver\<close>

text \<open>
  The argument \<open>variables\<close> is a dictionary from names to values that may be \<open>None\<close>;
  no dictionary at all and the empty dictionary are both the empty map. The first loop
  builds \<open>safe_variables\<close>.
\<close>

definition safe_variables_of :: "(string \<rightharpoonup> string option) \<Rightarrow> (string \<rightharpoonup> string)" where
  "safe_variables_of vars =
     (\<lambda>key. case vars key of
              None \<Rightarrow> None
            | Some None \<Rightarrow> Some ''UNKNOWN''
            | Some (Some v) \<Rightarrow> Some (if v \<noteq> [] then v else ''UNKNOWN''))"

definition should_replace :: "EscapeInfo option \<Rightarrow> rmatch \<Rightarrow> bool" where
  "should_replace info m =
     (case info of
        None \<Rightarrow> True
      | Some e \<Rightarrow>
          if escape_type e = FULL then False
          else if escape_type e = PARTIAL
          then list_ex (\<lambda>(start, end). start \<le> m_start m \<and> m_start m < end)
                 (variable_positions e)
          else True)"

text \<open>
  The body of \<open>for match in reversed(matches)\<close>: the state is \<open>result\<close> and
  \<open>safe_variables\<close>. The pattern has a group, so \<open>match.group(1)\<close> is a string.
\<close>

fun resolve_step ::
  "EscapeInfo option \<Rightarrow> rmatch \<Rightarrow> string \<times> (string \<rightharpoonup> string) \<Rightarrow> string \<times> (string \<rightharpoonup> string)"
where
  "resolve_step info m (result, safe_variables) =
     (let var_name = strip (case group1 m of Some g \<Rightarrow> g | None \<Rightarrow> []);
          safe_variables' =
            (if safe_variables var_name = None
             then safe_variables(var_name \<mapsto> ''UNKNOWN'') else safe_variables);
          replacement = (case safe_variables' var_name of Some v \<Rightarrow> v | None \<Rightarrow> ''UNKNOWN'')
      in (if should_replace info m
          then take (m_start m) result @ replacement @ drop (m_end m) result
          else result,
          safe_variables'))"

definition resolve_variables ::
  "string \<Rightarrow> (string \<rightharpoonup> string option) \<Rightarrow> EscapeInfo option \<Rightarrow> string"
where
  "resolve_variables text vars info =
     fst (fold (resolve_step info) (rev (finditer BraceVar text))
            (text, safe_variables_of vars))"

section \<open>MarkdownFlowUnifiedParser\<close>

text \<open>What one block adds to \<open>all_variables\<close>.\<close>

definition block_variables :: "Block \<Rightarrow> string list" where
  "block_variables block =
     (case block_type block of
        CONTENT \<Rightarrow> variables (parse_content_block (content block))
      | INTERACTION \<Rightarrow>
          (case descriptor (parse_interaction_block (content block)) of
             Error msg \<Rightarrow> []
           | ButtonsWithText v bs q \<Rightarrow> v # extract_variables q None
           | TextOnly v q \<Rightarrow> v # extract_variables q None
           | ButtonsOnly v bs \<Rightarrow> [v]
           | NonAssignmentButton bs \<Rightarrow> [])
      | PRESERVED_CONTENT \<Rightarrow> variables (parse_preserved_content_block (content block)))"

text \<open>The loop \<open>for block in blocks\<close>; \<open>all_variables\<close> is its state.\<close>

fun all_variables_loop :: "Block list \<Rightarrow> string list \<Rightarrow> string list" where
  "all_variables_loop [] all_variables = all_variables"
| "all_variables_loop (block # rest) all_variables =
     all_variables_loop rest (all_variables @ block_variables block)"

definition unified_parse_document :: "string \<Rightarrow> Block list \<times> string list" where
  "unified_parse_document document =
     (let blocks = parse_document document
      in (blocks, sorted_set (all_variables_loop blocks [])))"

definition process_block_content :: "Block \<Rightarrow> (string \<rightharpoonup> string option) \<Rightarrow> string" where
  "process_block_content block vars =
     (case block_type block of
        CONTENT \<Rightarrow>
          (let r = parse_content_block (content block)
           in resolve_variables (processed_content r) vars (Some (escape_info r)))
      | PRESERVED_CONTENT \<Rightarrow>
          (let r = parse_preserved_content_block (content block)
           in resolve_variables (processed_content r) vars (Some (escape_info r)))
      | INTERACTION \<Rightarrow> content block)"

section \<open>The specification's words\<close>

text \<open>
  The button of one trimmed, non-empty segment: split at the first \<open>//\<close> into a trimmed
  display text and a trimmed value, or both the segment itself when it has no \<open>//\<close>; and
  the button list: split on \<open>|\<close>, trim, drop the empty segments, one button for each.
\<close>

definition button_of :: "string \<Rightarrow> Button" where
  "button_of seg =
     (case find_sub ''//'' seg of
        Some i \<Rightarrow> \<lparr>display = strip (take i seg), val = strip (drop (i + 2) seg)\<rparr>
      | None \<Rightarrow> \<lparr>display = seg, val = seg\<rparr>)"

definition parse_buttons_spec :: "string \<Rightarrow> Button list" where
  "parse_buttons_spec s =
     map button_of (filter (\<lambda>t. t \<noteq> []) (map strip (split_char CHR ''|'' s)))"

text \<open>
  The value a name resolves to: the mapped value when it is a non-empty string, and
  \<open>UNKNOWN\<close> when the name is absent or maps to \<open>None\<close> or to the empty string.
\<close>

definition value_or_unknown :: "(string \<rightharpoonup> string option) \<Rightarrow> string \<Rightarrow> string" where
  "value_or_unknown vars name =
     (case vars name of
        None \<Rightarrow> ''UNKNOWN''
      | Some None \<Rightarrow> ''UNKNOWN''
      | Some (Some v) \<Rightarrow> if v = [] then ''UNKNOWN'' else v)"

text \<open>The name of an occurrence \<^verbatim>\<open>{{name}}\<close>: group 1, trimmed.\<close>

definition match_name :: "rmatch \<Rightarrow> string" where
  "match_name m = strip (case group1 m of Some g \<Rightarrow> g | None \<Rightarrow> [])"

text \<open>
  The text rebuilt from left to right over the occurrences \<open>ms\<close>, from offset \<open>pos\<close> on:
  an occurrence for which \<open>f\<close> gives a string is replaced by it, every other one and all
  the text between the occurrences stay as they are.
\<close>

fun substitute_from :: "(rmatch \<Rightarrow> string option) \<Rightarrow> string \<Rightarrow> nat \<Rightarrow> rmatch list \<Rightarrow> string" where
  "substitute_from f t pos [] = drop pos t"
| "substitute_from f t pos (m # ms) =
     take (m_start m - pos) (drop pos t) @ (case f m of Some r \<Rightarrow> r | None \<Rightarrow> group0 m)
       @ substitute_from f t (m_end m) ms"

text \<open>
  Matches that lie in the text in order and without overlap, each with its own slice of
  the text as group 0; and the invariant of \<open>safe_variables\<close> in the resolver's loop.
\<close>

fun wf_matches :: "string \<Rightarrow> nat \<Rightarrow> rmatch list \<Rightarrow> bool" where
  "wf_matches t pos [] = True"
| "wf_matches t pos (m # ms) =
     (pos \<le> m_start m \<and> m_start m < m_end m \<and> m_end m \<le> length t \<and>
      group0 m = take (m_end m - m_start m) (drop (m_start m) t) \<and>
      wf_matches t (m_end m) ms)"

definition safe_ok :: "(string \<rightharpoonup> string option) \<Rightarrow> (string \<rightharpoonup> string) \<Rightarrow> bool" where
  "safe_ok vars sv =
     (\<forall>k. (sv k = None \<and> vars k = None) \<or> sv k = Some (value_or_unknown vars k))"

section \<open>Properties\<close>

lemma split_char_not_Nil: "split_char sep s \<noteq> []"
  by (induction s) (auto split: list.splits)

subsection \<open>Trimming\<close>

lemma rstrip_Cons: "\<not> isspace x \<Longrightarrow> rstrip (x # xs) = x # rstrip xs"
  by (simp add: rstrip_def dropWhile_append)

lemma strip_Cons: "\<not> isspace x \<Longrightarrow> strip (x # xs) = x # rstrip xs"
  by (simp add: strip_def lstrip_def rstrip_Cons)

lemma rstrip_idem: "rstrip (rstrip s) = rstrip s"
  by (simp add: rstrip_def dropWhile_idem)

lemma lstrip_rstrip: "lstrip (rstrip (lstrip s)) = rstrip (lstrip s)"
proof (cases "lstrip s")
  case Nil
  then have "rstrip (lstrip s) = []" by (simp add: rstrip_def)
  then show ?thesis by (simp add: lstrip_def)
next
  case (Cons x xs)
  have "\<not> isspace x"
    using Cons hd_dropWhile [of isspace s] by (simp add: lstrip_def)
  then show ?thesis using Cons by (simp add: rstrip_Cons lstrip_def)
qed

lemma strip_idem: "strip (strip s) = strip s"
  by (simp add: strip_def lstrip_rstrip rstrip_idem)

subsection \<open>The block list\<close>

lemma map_snd_enumerate_fun: "map (\<lambda>x. f (snd x)) (enumerate n xs) = map f xs"
  by (induction xs arbitrary: n) simp_all

lemma map_index_update_indices: "map index (update_indices bs) = [0..<length bs]"
  by (simp add: update_indices_def case_prod_unfold comp_def map_fst_enumerate)

lemma map_content_update_indices: "map content (update_indices bs) = map content bs"
  by (simp add: update_indices_def case_prod_unfold comp_def map_snd_enumerate_fun)

lemma length_update_indices: "length (update_indices bs) = length bs"
  by (simp add: update_indices_def)

lemma parse_single_block_content:
  "strip s \<noteq> [] \<Longrightarrow> \<exists>b. parse_single_block s i = Some b \<and> content b = strip s"
  by (simp add: parse_single_block_def Let_def)

lemma collect_blocks_content:
  "map content (collect_blocks es acc) =
     map content acc @ filter (\<lambda>s. s \<noteq> []) (map (\<lambda>e. strip (snd e)) es)"
proof (induction es arbitrary: acc)
  case Nil
  then show ?case by simp
next
  case (Cons e es)
  obtain i raw where e: "e = (i, raw)" by (cases e)
  show ?case
  proof (cases "strip raw = []")
    case True
    then show ?thesis using Cons e by simp
  next
    case False
    then have "strip (strip raw) \<noteq> []" by (simp add: strip_idem)
    from parse_single_block_content [OF this, of i]
    obtain b where b: "parse_single_block (strip raw) i = Some b" "content b = strip raw"
      unfolding strip_idem by blast
    show ?thesis using False e b by (simp add: Cons.IH)
  qed
qed

text \<open>
  C5. For every document, the blocks that \<open>parse_document\<close> returns carry the indices
  \<open>0, 1, ..., len - 1\<close> in this order, and their contents are, in document order, the
  trimmed segments of the split that are not empty: a segment that is empty or white
  space only gives no block and takes no index.
\<close>

theorem parse_document_indices:
  "map index (parse_document d) = [0..<length (parse_document d)] \<and>
   map content (parse_document d) =
     filter (\<lambda>s. s \<noteq> [])
       (map strip (re_split Sep (processed_text (process_document_escapes d))))"
  by (simp add: parse_document_def Let_def map_index_update_indices
      length_update_indices map_content_update_indices collect_blocks_content
      map_snd_enumerate_fun)

subsection \<open>Classification\<close>

lemma startswith_Cons:
  "startswith s (c # p) = (case s of [] \<Rightarrow> False | x # r \<Rightarrow> x = c \<and> startswith r p)"
  by (cases s) (simp_all add: startswith_def)

lemma hd_split_char: "c \<noteq> sep \<Longrightarrow> hd (split_char sep (c # cs)) = c # hd (split_char sep cs)"
  using split_char_not_Nil [of sep cs] by (cases "split_char sep cs") simp_all

lemma not_isspace_question: "\<not> isspace CHR ''?''"
  by (simp add: isspace_def)

lemma not_preserved_question: "is_preserved_content_block (CHR ''?'' # r) = False"
proof -
  have hd: "strip (hd (split_char newline (CHR ''?'' # r))) =
      CHR ''?'' # rstrip (hd (split_char newline r))"
  proof -
    have "hd (split_char newline (CHR ''?'' # r)) = CHR ''?'' # hd (split_char newline r)"
      by (rule hd_split_char) simp
    then show ?thesis by (simp only: strip_Cons [OF not_isspace_question])
  qed
  have "match_preserved_inline (CHR ''?'' # t) = None" for t
    by (simp add: match_preserved_inline_def startswith_def)
  then show ?thesis
    unfolding is_preserved_content_block_def Let_def hd by simp
qed

text \<open>
  C6. A segment that, trimmed, starts with \<open>?[\<close> and ends with \<open>]\<close> becomes a block: an
  interaction block when its bracket count ends at 0, whatever else its shape matches
  (the interaction test comes first), and an ordinary content block when the count does
  not end at 0.
\<close>

theorem classification_priority:
  assumes "startswith (strip s) ''?[''" and "endswith (strip s) '']''"
  shows "parse_single_block s i =
           Some \<lparr>content = strip s,
                 block_type = (if bracket_count (strip s) 0 = 0 then INTERACTION else CONTENT),
                 index = i\<rparr>"
proof -
  from assms(1) obtain r where r: "strip s = CHR ''?'' # r"
    by (auto simp: startswith_Cons split: list.splits)
  have ne: "strip s \<noteq> []" using r by simp
  have inter: "is_interaction_block (strip s) = (bracket_count (strip s) 0 = 0)"
    using assms by (simp add: is_interaction_block_def Let_def strip_idem)
  have pres: "is_preserved_content_block (strip s) = False"
    unfolding r by (rule not_preserved_question)
  show ?thesis
    using ne inter pres by (simp add: parse_single_block_def Let_def)
qed

text \<open>The two cases at \<^verbatim>\<open>?[a]\<close> and at \<^verbatim>\<open>?[a]]\<close>.\<close>

theorem classification_priority_witness:
  "parse_single_block ''?[a]'' 5 = Some \<lparr>content = ''?[a]'', block_type = INTERACTION, index = 5\<rparr> \<and>
   parse_single_block ''?[a]]'' 7 = Some \<lparr>content = ''?[a]]'', block_type = CONTENT, index = 7\<rparr>"
proof -
  have a: "startswith (strip ''?[a]'') ''?[''" "endswith (strip ''?[a]'') '']''" by code_simp+
  have b: "startswith (strip ''?[a]]'') ''?[''" "endswith (strip ''?[a]]'') '']''" by code_simp+
  have c: "strip ''?[a]'' = ''?[a]''" "strip ''?[a]]'' = ''?[a]]''" by code_simp+
  have d: "bracket_count ''?[a]'' 0 = 0" "bracket_count ''?[a]]'' 0 \<noteq> 0" by simp_all
  show ?thesis
    using classification_priority [OF a, of 5] classification_priority [OF b, of 7]
    by (simp add: c d)
qed

subsection \<open>Text without escapes\<close>

lemma startswith_drop_in_set: "startswith (drop pos text) (c # p) \<Longrightarrow> c \<in> set text"
proof -
  assume "startswith (drop pos text) (c # p)"
  then obtain r where "drop pos text = c # r"
    by (auto simp: startswith_Cons split: list.splits)
  then have "c \<in> set (drop pos text)" by simp
  then show ?thesis by (rule in_set_dropD)
qed

lemma match_at_Lit_absent: "c \<notin> set text \<Longrightarrow> match_at (Lit (c # l)) text pos = None"
  by (auto dest: startswith_drop_in_set)

lemma match_at_Var_absent: "c \<notin> set text \<Longrightarrow> match_at (Var (c # p)) text pos = None"
  by (auto dest: startswith_drop_in_set)

lemma finditer_from_no_match:
  "(\<And>p. match_at r t p = None) \<Longrightarrow> finditer_from r t pos = []"
proof (induction r t pos rule: finditer_from.induct)
  case (1 r t pos)
  show ?case
  proof (cases "length t \<le> pos")
    case True
    then show ?thesis by (simp add: finditer_from.simps)
  next
    case False
    have "finditer_from r t pos = finditer_from r t (Suc pos)"
      using False "1.prems" [of pos] by (subst finditer_from.simps) simp
    also have "\<dots> = []"
      using False "1.prems" by (intro "1.IH"(1)) simp_all
    finally show ?thesis .
  qed
qed

lemma finditer_Lit_absent: "c \<notin> set text \<Longrightarrow> finditer (Lit (c # l)) text = []"
  unfolding finditer_def by (rule finditer_from_no_match) (rule match_at_Lit_absent)

lemma finditer_Var_absent: "c \<notin> set text \<Longrightarrow> finditer (Var (c # p)) text = []"
  unfolding finditer_def by (rule finditer_from_no_match) (rule match_at_Var_absent)

text \<open>
  C9. For a text without a backslash, \<open>process_document_escapes\<close> and
  \<open>process_inline_escapes\<close> both return the text unchanged, with the escape type \<open>NONE\<close>
  and no variable positions.
\<close>

theorem no_backslash_identity:
  assumes "backslash \<notin> set text"
  shows "process_document_escapes text =
           \<lparr>escape_type = NONE, original_text = text, processed_text = text,
            variable_positions = []\<rparr> \<and>
         process_inline_escapes text =
           \<lparr>escape_type = NONE, original_text = text, processed_text = text,
            variable_positions = []\<rparr>"
proof -
  have lit: "re_search (Lit (backslash # l)) text = None" for l
    by (simp add: re_search_def finditer_Lit_absent [OF assms])
  have var: "re_search (Var (backslash # p)) text = None" for p
    by (simp add: re_search_def finditer_Var_absent [OF assms])
  have doc: "full_loop DOCUMENT_ESCAPES (NONE, text) = (NONE, text)"
    by (simp add: DOCUMENT_ESCAPES_def lit)
  have inl: "full_loop INLINE_ESCAPES (NONE, text) = (NONE, text)"
    by (simp add: INLINE_ESCAPES_def lit var)
  have par: "partial_loop PARTIAL_ESCAPES (NONE, text, []) = (NONE, text, [])"
    by (simp add: PARTIAL_ESCAPES_def finditer_Var_absent [OF assms])
  show ?thesis
    by (simp add: process_document_escapes_def process_inline_escapes_def process_escapes_def
        doc inl par)
qed

text \<open>The text \<^verbatim>\<open>Hello {{name}}\<close> has no backslash.\<close>

theorem no_backslash_identity_witness:
  "process_document_escapes ''Hello {{name}}'' =
     \<lparr>escape_type = NONE, original_text = ''Hello {{name}}'',
      processed_text = ''Hello {{name}}'', variable_positions = []\<rparr> \<and>
   process_inline_escapes ''Hello {{name}}'' =
     \<lparr>escape_type = NONE, original_text = ''Hello {{name}}'',
      processed_text = ''Hello {{name}}'', variable_positions = []\<rparr>"
proof -
  have h: "backslash \<notin> set ''Hello {{name}}''" by simp
  show ?thesis using no_backslash_identity [OF h] .
qed

subsection \<open>Buttons\<close>

lemma find_sub_Some:
  "find_sub sub s = Some i \<Longrightarrow>
     startswith (drop i s) sub \<and> (\<forall>j<i. \<not> startswith (drop j s) sub)"
proof (induction s arbitrary: i)
  case Nil
  then show ?case by (auto simp: startswith_def split: if_splits)
next
  case (Cons c cs)
  show ?case
  proof (cases "startswith (c # cs) sub")
    case True
    then show ?thesis using Cons.prems by simp
  next
    case False
    with Cons.prems obtain k where k: "find_sub sub cs = Some k" "i = Suc k" by auto
    from Cons.IH [OF k(1)] have ih: "startswith (drop k cs) sub"
      "\<forall>j<k. \<not> startswith (drop j cs) sub" by simp_all
    have "\<not> startswith (drop j (c # cs)) sub" if "j < Suc k" for j
      using that False ih(2) by (cases j) simp_all
    then show ?thesis using ih(1) k(2) by simp
  qed
qed

lemma find_sub_None:
  "find_sub sub s = None \<Longrightarrow> \<not> startswith (drop j s) sub"
proof (induction s arbitrary: j)
  case Nil
  then show ?case by (auto simp: startswith_def split: if_splits)
next
  case (Cons c cs)
  then show ?case by (cases j) (auto split: if_splits)
qed

lemma buttons_loop_eq:
  "buttons_loop xs acc = acc @ map button_of (filter (\<lambda>t. t \<noteq> []) (map strip xs))"
  by (induction xs arbitrary: acc)
     (auto simp: Let_def button_of_def contains_def split_once_def split: option.splits)

text \<open>
  C7. \<open>parse_buttons\<close> splits on \<open>|\<close>, drops the segments that are empty after
  trimming, and makes of each remaining one a button by a split at its first \<open>//\<close>;
  \<^verbatim>\<open>A//1|B|  |C//2//x\<close> gives the buttons \<open>(A, 1)\<close>, \<open>(B, B)\<close> and \<open>(C, 2//x)\<close>.
\<close>

theorem parse_buttons_first_split:
  "parse_buttons s = parse_buttons_spec s \<and>
   parse_buttons ''A//1|B|  |C//2//x'' =
     [\<lparr>display = ''A'', val = ''1''\<rparr>, \<lparr>display = ''B'', val = ''B''\<rparr>,
      \<lparr>display = ''C'', val = ''2//x''\<rparr>]"
proof
  have "strip [] = []" by (simp add: strip_def lstrip_def rstrip_def)
  then show "parse_buttons s = parse_buttons_spec s"
    by (simp add: parse_buttons_def parse_buttons_spec_def buttons_loop_eq)
  show "parse_buttons ''A//1|B|  |C//2//x'' =
     [\<lparr>display = ''A'', val = ''1''\<rparr>, \<lparr>display = ''B'', val = ''B''\<rparr>,
      \<lparr>display = ''C'', val = ''2//x''\<rparr>]"
    by code_simp
qed

subsection \<open>Interaction blocks without brackets\<close>







subsection \<open>Resolution\<close>

lemma startswith_length: "startswith s p \<Longrightarrow> length p \<le> length s"
proof -
  assume "startswith s p"
  then have "length (take (length p) s) = length p" by (simp add: startswith_def)
  then show ?thesis by simp
qed

lemma var_body_length: "var_body s = Some (n, g) \<Longrightarrow> n \<le> length s"
proof -
  assume a: "var_body s = Some (n, g)"
  then have n: "n = length g + 4" and sw: "startswith (drop (2 + length g) s) ''}}''"
    by (auto simp: var_body_def Let_def split: if_splits)
  from startswith_length [OF sw] show ?thesis using n by simp
qed

lemma rfind_char_less: "rfind_char c xs = Some k \<Longrightarrow> k < length xs"
  by (induction xs arbitrary: k) (auto split: option.splits if_splits)

lemma sep_body_length: "sep_body s = Some n \<Longrightarrow> n \<le> length s"
proof -
  assume a: "sep_body s = Some n"
  then obtain r where s: "s = newline # r" 
    by (auto simp: sep_body_def split: list.splits if_splits)
  let ?w1 = "takeWhile isspace r" and ?r1 = "dropWhile isspace r"
  from a s have sw: "startswith ?r1 ''---''"
    by (auto simp: sep_body_def Let_def split: if_splits)
  from a s sw obtain k where k: "rfind_char newline (takeWhile isspace (drop 3 ?r1)) = Some k"
    and n: "n = 1 + length ?w1 + 3 + k + 1"
    by (auto simp: sep_body_def Let_def split: option.splits)
  have "k < length (takeWhile isspace (drop 3 ?r1))" using k by (rule rfind_char_less)
  also have "\<dots> \<le> length (drop 3 ?r1)" by (rule length_takeWhile_le)
  finally have "k + 3 < length ?r1" by simp
  moreover have "length ?w1 + length ?r1 = length r"
    by (metis length_append takeWhile_dropWhile_id)
  ultimately show ?thesis using n s by simp
qed

lemma match_at_bound: "match_at r t pos = Some (n, g) \<Longrightarrow> pos + n \<le> length t"
proof (cases r)
  case (Lit l)
  assume "match_at r t pos = Some (n, g)"
  with Lit have "startswith (drop pos t) l" "n = length l" "l \<noteq> []"
    by (auto split: if_splits)
  then have "length l \<le> length t - pos" "0 < length l" "n = length l"
    using startswith_length [of "drop pos t" l] by simp_all
  then show ?thesis by linarith
next
  case (Var p)
  assume a: "match_at r t pos = Some (n, g)"
  with Var obtain k g' where "var_body (drop (pos + length p) t) = Some (k, g')" "n = length p + k"
    by (auto split: if_splits option.splits)
  moreover from this have "0 < k" by (auto simp: var_body_def Let_def split: if_splits)
  ultimately show ?thesis using var_body_length [of "drop (pos + length p) t" k g'] by simp
next
  case BraceVar
  assume a: "match_at r t pos = Some (n, g)"
  with BraceVar obtain g' where "var_body (drop pos t) = Some (n, g')"
    by (auto split: if_splits option.splits)
  with var_body_length [of "drop pos t" n g'] match_at_pos [OF a] show ?thesis by simp
next
  case Sep
  assume a: "match_at r t pos = Some (n, g)"
  with Sep have "sep_body (drop pos t) = Some n" by (auto split: option.splits)
  with sep_body_length [of "drop pos t" n] match_at_pos [OF a] show ?thesis by simp
qed

lemma wf_matches_weaken: "wf_matches t p ms \<Longrightarrow> q \<le> p \<Longrightarrow> wf_matches t q ms"
  by (cases ms) auto

lemma wf_finditer_from: "wf_matches t pos (finditer_from r t pos)"
proof (induction r t pos rule: finditer_from.induct)
  case (1 r t pos)
  show ?case
  proof (cases "length t \<le> pos")
    case True
    then show ?thesis by (simp add: finditer_from.simps)
  next
    case False
    show ?thesis
    proof (cases "match_at r t pos")
      case None
      have "wf_matches t (Suc pos) (finditer_from r t (Suc pos))"
        using False None by (intro "1.IH"(1)) simp_all
      then have "wf_matches t pos (finditer_from r t (Suc pos))"
        by (rule wf_matches_weaken) simp
      then show ?thesis using False None by (subst finditer_from.simps) simp
    next
      case (Some a)
      obtain n g where a: "a = (n, g)" by (cases a)
      have ih: "wf_matches t (pos + n) (finditer_from r t (pos + n))"
        using False Some a by (intro "1.IH"(2)) simp_all
      have "0 < n" "pos + n \<le> length t"
        using Some a match_at_pos match_at_bound by blast+
      then show ?thesis using False Some a ih by (subst finditer_from.simps) simp
    qed
  qed
qed

lemma safe_ok_init: "safe_ok vars (safe_variables_of vars)"
  by (auto simp: safe_ok_def safe_variables_of_def value_or_unknown_def split: option.splits)

lemma resolve_step_ok:
  assumes "safe_ok vars sv"
  shows "\<exists>sv'. resolve_step info m (res, sv) =
           (if should_replace info m
            then take (m_start m) res @ value_or_unknown vars (match_name m) @ drop (m_end m) res
            else res, sv') \<and> safe_ok vars sv'"
proof (cases "sv (match_name m)")
  case None
  have "vars (match_name m) = None"
    using assms None unfolding safe_ok_def by (metis option.distinct(1))
  then have v: "vars (match_name m) = None" "value_or_unknown vars (match_name m) = ''UNKNOWN''"
    by (simp_all add: value_or_unknown_def)
  have "safe_ok vars (sv(match_name m \<mapsto> ''UNKNOWN''))"
    using assms v by (auto simp: safe_ok_def)
  then show ?thesis using None v by (simp add: match_name_def Let_def)
next
  case (Some a)
  then have "a = value_or_unknown vars (match_name m)"
    using assms unfolding safe_ok_def by (metis option.distinct(1) option.inject)
  then show ?thesis using Some assms by (simp add: match_name_def Let_def)
qed

lemma fold_resolve_step:
  assumes "wf_matches t p ms" and "safe_ok vars sv"
  shows "\<exists>sv'. fold (resolve_step info) (rev ms) (t, sv) =
           (take p t @ substitute_from
              (\<lambda>m. if should_replace info m
                    then Some (value_or_unknown vars (match_name m)) else None) t p ms, sv')
         \<and> safe_ok vars sv'"
  using assms
proof (induction ms arbitrary: p)
  case Nil
  then show ?case by simp
next
  case (Cons m ms)
  let ?f = "\<lambda>m. if should_replace info m
                 then Some (value_or_unknown vars (match_name m)) else None"
  let ?R = "substitute_from ?f t (m_end m) ms"
  from Cons.prems have wf: "p \<le> m_start m" "m_start m < m_end m" "m_end m \<le> length t"
    "group0 m = take (m_end m - m_start m) (drop (m_start m) t)" "wf_matches t (m_end m) ms"
    by simp_all
  from Cons.IH [OF wf(5) Cons.prems(2)] obtain sv1 where
    ih: "fold (resolve_step info) (rev ms) (t, sv) = (take (m_end m) t @ ?R, sv1)"
    and ok1: "safe_ok vars sv1" by blast
  from resolve_step_ok [OF ok1, of info m "take (m_end m) t @ ?R"] obtain sv2 where
    st: "resolve_step info m (take (m_end m) t @ ?R, sv1) =
           (if should_replace info m
            then take (m_start m) (take (m_end m) t @ ?R) @ value_or_unknown vars (match_name m)
                   @ drop (m_end m) (take (m_end m) t @ ?R)
            else take (m_end m) t @ ?R, sv2)"
    and ok2: "safe_ok vars sv2" by blast
  have len: "length (take (m_end m) t) = m_end m" using wf(3) by simp
  have a: "take (m_start m) (take (m_end m) t @ ?R) = take (m_start m) t"
    using wf(2) len by (simp add: min_def)
  have b: "drop (m_end m) (take (m_end m) t @ ?R) = ?R"
    using len by simp
  have c: "take p t @ take (m_start m - p) (drop p t) = take (m_start m) t"
    using wf(1) by (metis le_add_diff_inverse take_add)
  have d: "take (m_end m) t = take (m_start m) t @ group0 m"
    using wf(2) wf(4) by (metis le_add_diff_inverse less_imp_le take_add)
  have "fold (resolve_step info) (rev (m # ms)) (t, sv) =
          resolve_step info m (take (m_end m) t @ ?R, sv1)"
    by (simp add: ih)
  also have "\<dots> = (take p t @ substitute_from ?f t p (m # ms), sv2)"
  proof (cases "should_replace info m")
    case True
    then show ?thesis unfolding st a b using c
      by (simp add: append_assoc [symmetric] del: append_assoc)
  next
    case False
    then show ?thesis unfolding st using c d
      by (simp add: append_assoc [symmetric] del: append_assoc)
  qed
  finally show ?case using ok2 by blast
qed

text \<open>
  C8. \<open>resolve_variables\<close> is total, and for every text, variable map and escape
  information its result is the text in which each occurrence \<^verbatim>\<open>{{name}}\<close> that is to be
  replaced stands replaced by the value of the name, or by \<open>UNKNOWN\<close> when the name is
  absent or maps to \<open>None\<close> or to the empty string; nothing else changes.
\<close>

theorem resolve_variables_fallback:
  "resolve_variables t vars info =
     substitute_from
       (\<lambda>m. if should_replace info m
             then Some (value_or_unknown vars (match_name m)) else None)
       t 0 (finditer BraceVar t)"
proof -
  have "wf_matches t 0 (finditer BraceVar t)"
    unfolding finditer_def by (rule wf_finditer_from)
  from fold_resolve_step [OF this safe_ok_init, of info vars]
  show ?thesis by (auto simp: resolve_variables_def)
qed

subsection \<open>Scenarios\<close>

text \<open>
  C1. The document \<^verbatim>\<open>a\n\---\nb\<close> has the escaped separator on a line of its own.
  Escape processing turns it into \<^verbatim>\<open>a\n---\nb\<close>, and the split that follows takes the
  line for a separator: \<open>parse_document\<close> returns two blocks, not one.
\<close>

theorem escaped_separator_is_split:
  "processed_text (process_document_escapes (''a'' @ newline # backslash # ''---'' @ newline # ''b''))
     = ''a'' @ newline # ''---'' @ newline # ''b'' \<and>
   parse_document (''a'' @ newline # backslash # ''---'' @ newline # ''b'') =
     [\<lparr>content = ''a'', block_type = CONTENT, index = 0\<rparr>,
      \<lparr>content = ''b'', block_type = CONTENT, index = 1\<rparr>]"
  by code_simp

text \<open>
  C2. Whatever the variable map, a content block \<^verbatim>\<open>\{{x}}\<close> is resolved to the literal
  \<^verbatim>\<open>{{x}}\<close>; and a content block \<^verbatim>\<open>\%{{x}}\<close> is resolved to \<^verbatim>\<open>%{{x}}\<close>, with \<open>x\<close>
  not substituted: the pattern of the resolver does not match a \<^verbatim>\<open>{{\<close> that follows
  a \<open>%\<close>.
\<close>

theorem partial_escape_not_substituted:
  "process_block_content \<lparr>content = backslash # ''{{x}}'', block_type = CONTENT, index = 0\<rparr> vars
     = ''{{x}}'' \<and>
   process_block_content \<lparr>content = backslash # ''%{{x}}'', block_type = CONTENT, index = 0\<rparr> vars
     = ''%{{x}}''"
  by code_simp

text \<open>
  C3. For the input \<^verbatim>\<open>\%{{a}}\%{{b}}\<close>, \<open>process_inline_escapes\<close> returns the text
  \<^verbatim>\<open>%{{a}}%{{b}}\<close> and the positions \<open>(8, 13)\<close> and \<open>(1, 6)\<close>. The first pair is an
  offset into the input, not into the returned text, where the characters from 8 to 13
  are \<^verbatim>\<open>{b}}\<close>.
\<close>

theorem variable_positions_stale:
  "processed_text (process_inline_escapes (backslash # ''%{{a}}'' @ backslash # ''%{{b}}''))
     = ''%{{a}}%{{b}}'' \<and>
   variable_positions (process_inline_escapes (backslash # ''%{{a}}'' @ backslash # ''%{{b}}''))
     = [(8, 13), (1, 6)] \<and>
   take (13 - 8) (drop 8 (processed_text
      (process_inline_escapes (backslash # ''%{{a}}'' @ backslash # ''%{{b}}'')))) = ''{b}}''"
  by code_simp

text \<open>
  C4. The document \<^verbatim>\<open>Hello {{name}}\n---\n?[%{{choice}}Yes|No]\<close> parses into two blocks:
  a content block \<^verbatim>\<open>Hello {{name}}\<close> with the variables \<open>[name]\<close>, and an interaction
  block whose descriptor is \<open>ButtonsOnly\<close> with the variable \<open>choice\<close> and the buttons
  \<open>Yes\<close> and \<open>No\<close>; the variables of the document are \<open>[choice, name]\<close>.
\<close>

theorem end_to_end_scenario:
  "unified_parse_document
     (''Hello {{name}}'' @ newline # ''---'' @ newline # ''?[%{{choice}}Yes|No]'') =
     ([\<lparr>content = ''Hello {{name}}'', block_type = CONTENT, index = 0\<rparr>,
       \<lparr>content = ''?[%{{choice}}Yes|No]'', block_type = INTERACTION, index = 1\<rparr>],
      [''choice'', ''name'']) \<and>
   variables (parse_content_block ''Hello {{name}}'') = [''name''] \<and>
   descriptor (parse_interaction_block ''?[%{{choice}}Yes|No]'') =
     ButtonsOnly ''choice''
       [\<lparr>display = ''Yes'', val = ''Yes''\<rparr>, \<lparr>display = ''No'', val = ''No''\<rparr>]"
  by code_simp

end
